theory Spec2Isabelle
  imports Main "HOL-Library.Sublist"
begin

section \<open>The line counter of \<^verbatim>\<open>total.py\<close>\<close>

text \<open>
  \<^verbatim>\<open>total.py\<close> walks the directory tree below the current working directory, prints
  every file whose name ends in one of four extensions and reports the number of
  lines it has read. This theory embeds the script and the few library functions it
  calls, and settles the properties that its specification states.

  Conventions of the embedding:
  \<^item> A Python \<^verbatim>\<open>str\<close> is a \<^typ>\<open>string\<close>, read as the UTF-8 encoding of the text. The
    script only tests names against ASCII suffixes, concatenates, and splits at
    carriage return and line feed; each of these gives the same answer on code points
    and on their UTF-8 bytes.
  \<^item> Paths are joined as \<^verbatim>\<open>posixpath.join\<close> joins them.
  \<^item> Every effect of the script is an \<^emph>\<open>event\<close>: a directory listing requested by
    \<^verbatim>\<open>os.walk\<close>, a call of \<^verbatim>\<open>open\<close>, an assignment to \<^verbatim>\<open>total_lines\<close>, a call of
    \<^verbatim>\<open>print\<close>. The events are kept in program order; standard output is the
    concatenation of what the \<^verbatim>\<open>print\<close> events wrote. Writing to standard output is
    taken to succeed.
  \<^item> An uncaught exception is the value \<open>Inl (e, st)\<close>, with the state \<open>st\<close> reached
    when \<open>e\<close> was raised; normal completion is \<open>Inr st\<close>.
\<close>

subsection \<open>The file system\<close>

type_synonym path = string

text \<open>
  What \<^verbatim>\<open>open(file_path, 'r', encoding="utf-8")\<close> followed by \<^verbatim>\<open>f.readlines()\<close> finds:
  bytes that decode (the decoded text), bytes that do not (with the text of the
  \<^verbatim>\<open>UnicodeDecodeError\<close>), or a file that cannot be opened or read at all (with the
  text of the \<^verbatim>\<open>OSError\<close>: permission denied, file gone since the listing, ...).
\<close>

datatype file_data =
    Decodable string
  | Undecodable string
  | Unopenable string

text \<open>
  A directory is the list of its entries in the order in which the file system lists
  them. Besides files and directories there are the two kinds of entry that
  \<^verbatim>\<open>os.walk\<close> reports as a directory and does not walk: a symbolic link to a directory
  (\<^verbatim>\<open>followlinks\<close> is off) and a directory whose listing fails, for want of the
  permission to read it (\<^verbatim>\<open>onerror\<close> is not set, so the \<^verbatim>\<open>OSError\<close> is dropped). Both
  have entries of their own, which the file system holds and \<^verbatim>\<open>os.walk\<close> does not get
  to see. Special files on which \<^verbatim>\<open>open\<close> would block are left out.
\<close>

datatype entry =
    File string file_data
  | Dir string "entry list"
  | Dir_link string "entry list"
  | Dir_unlistable string "entry list"

fun is_dir :: "entry \<Rightarrow> bool" where
  "is_dir (File _ _) = False"
| "is_dir _ = True"

fun entry_name :: "entry \<Rightarrow> string" where
  "entry_name (File n _) = n"
| "entry_name (Dir n _) = n"
| "entry_name (Dir_link n _) = n"
| "entry_name (Dir_unlistable n _) = n"

subsection \<open>Exceptions, events and the state of a run\<close>

datatype exn = UnicodeDecodeError string | OSError string

datatype event =
    Scandir path
  | Open path
  | Assign int
  | Print string string

record state =
  total_lines :: int
  events :: "event list"

definition emit :: "event \<Rightarrow> state \<Rightarrow> state" where
  "emit ev st = st\<lparr>events := events st @ [ev]\<rparr>"

text \<open>\<^verbatim>\<open>print(s, end=e)\<close>; the default \<^verbatim>\<open>end\<close> is a line feed.\<close>

definition py_print :: "string \<Rightarrow> string \<Rightarrow> state \<Rightarrow> state" where
  "py_print s e st = emit (Print s e) st"

fun written :: "event \<Rightarrow> string" where
  "written (Print s e) = s @ e"
| "written _ = []"

definition stdout :: "state \<Rightarrow> string" where
  "stdout st = concat (map written (events st))"

subsection \<open>Library functions\<close>

text \<open>\<^verbatim>\<open>str.endswith\<close>, with one suffix and with a tuple of suffixes.\<close>

definition endswith :: "string \<Rightarrow> string \<Rightarrow> bool" where
  "endswith s suf = (length suf \<le> length s \<and> drop (length s - length suf) s = suf)"

definition endswith_any :: "string \<Rightarrow> string list \<Rightarrow> bool" where
  "endswith_any s sufs = list_ex (endswith s) sufs"

definition startswith :: "string \<Rightarrow> string \<Rightarrow> bool" where
  "startswith s pre = (take (length pre) s = pre)"

text \<open>\<^verbatim>\<open>os.path.join(a, b)\<close> on a POSIX system.\<close>

definition join :: "path \<Rightarrow> string \<Rightarrow> path" where
  "join a b =
     (if startswith b ''/'' \<or> a = [] then b
      else if endswith a ''/'' then a @ b
      else a @ ''/'' @ b)"

text \<open>
  Reading in text mode with the default \<^verbatim>\<open>newline=None\<close>: a carriage return, alone
  or followed by a line feed, is read as one line feed, and \<^verbatim>\<open>readlines\<close> cuts the
  text after every line feed, keeping it; a last line without line feed is a line
  too.
\<close>

fun universal_newlines :: "string \<Rightarrow> string" where
  "universal_newlines [] = []"
| "universal_newlines (c # cs) =
     (if c = CHR 0x0D then
        (case cs of
           [] \<Rightarrow> [CHR ''\<newline>'']
         | d # ds \<Rightarrow>
             if d = CHR ''\<newline>'' then CHR ''\<newline>'' # universal_newlines ds
             else CHR ''\<newline>'' # universal_newlines cs)
      else c # universal_newlines cs)"

fun split_keepends :: "string \<Rightarrow> string \<Rightarrow> string list" where
  "split_keepends acc [] = (if acc = [] then [] else [acc])"
| "split_keepends acc (c # cs) =
     (if c = CHR ''\<newline>'' then (acc @ [c]) # split_keepends [] cs
      else split_keepends (acc @ [c]) cs)"

definition readlines :: "string \<Rightarrow> string list" where
  "readlines text = split_keepends [] (universal_newlines text)"

definition open_readlines :: "file_data \<Rightarrow> exn + string list" where
  "open_readlines d =
     (case d of
        Decodable text \<Rightarrow> Inr (readlines text)
      | Undecodable msg \<Rightarrow> Inl (UnicodeDecodeError msg)
      | Unopenable msg \<Rightarrow> Inl (OSError msg))"

text \<open>\<^verbatim>\<open>str\<close> of an integer: its decimal digits, after a minus sign if negative.\<close>

function str_nat :: "nat \<Rightarrow> string" where
  "str_nat n =
     (if n < 10 then [''0123456789'' ! n]
      else str_nat (n div 10) @ [''0123456789'' ! (n mod 10)])"
  by pat_completeness auto
termination
  by (relation "measure id") auto

declare str_nat.simps [simp del]

definition str_int :: "int \<Rightarrow> string" where
  "str_int i = (if i < 0 then ''-'' @ str_nat (nat (- i)) else str_nat (nat i))"

subsection \<open>The script\<close>

definition directory_path :: path where
  "directory_path = ''./''"

definition file_extensions :: "string list" where
  "file_extensions = [''.js'', ''.html'', ''.css'', ''.py'']"

definition exclude_folders :: "string set" where
  "exclude_folders = {''node_modules''}"

definition init_state :: state where
  "init_state = \<lparr>total_lines = 0, events = []\<rparr>"

text \<open>\<^verbatim>\<open>for line in file_lines: print(line, end='')\<close>\<close>

fun print_lines :: "string list \<Rightarrow> state \<Rightarrow> state" where
  "print_lines [] st = st"
| "print_lines (line # file_lines) st = print_lines file_lines (py_print line [] st)"

text \<open>
  The body of \<^verbatim>\<open>for file in files\<close> (lines 12 to 23 of the script), for the file
  named \<open>file\<close> with data \<open>d\<close> in the directory whose path is \<open>root\<close>. The
  \<^verbatim>\<open>except\<close> clause catches \<^verbatim>\<open>UnicodeDecodeError\<close> and nothing else.
\<close>

definition process_file :: "path \<Rightarrow> string \<Rightarrow> file_data \<Rightarrow> state \<Rightarrow> (exn \<times> state) + state" where
  "process_file root file d st =
     (if endswith_any file file_extensions then
        let file_path = join root file;
            st1 = emit (Open file_path) st
        in (case open_readlines d of
              Inr file_lines \<Rightarrow>
                let n = total_lines st1 + int (length file_lines);
                    st2 = emit (Assign n) (st1\<lparr>total_lines := n\<rparr>);
                    st3 = py_print (''Contents of '' @ file_path @ '':'') ''\<newline>'' st2;
                    st4 = print_lines file_lines st3
                in Inr (py_print (''\<newline>'' @ replicate 50 (CHR ''-'') @ ''\<newline>'') ''\<newline>'' st4)
            | Inl (UnicodeDecodeError msg) \<Rightarrow>
                Inr (py_print (''Error reading '' @ file_path @ '': '' @ msg) ''\<newline>'' st1)
            | Inl e \<Rightarrow> Inl (e, st1))
      else Inr st)"

text \<open>\<^verbatim>\<open>for file in files\<close>, over the entries that \<^verbatim>\<open>os.walk\<close> lists as files.\<close>

fun scan_files :: "path \<Rightarrow> entry list \<Rightarrow> state \<Rightarrow> (exn \<times> state) + state" where
  "scan_files root [] st = Inr st"
| "scan_files root (File file d # files) st =
     (case process_file root file d st of
        Inl x \<Rightarrow> Inl x
      | Inr st' \<Rightarrow> scan_files root files st')"
| "scan_files root (_ # files) st = scan_files root files st"

text \<open>
  \<^verbatim>\<open>for root, dirs, files in os.walk(directory_path, topdown=True)\<close> with its body.
  \<open>walk root entries\<close> is the visit of the directory with path \<open>root\<close> and entries
  \<open>entries\<close>: \<^verbatim>\<open>os.walk\<close> lists it and sorts the entries into \<open>dirs\<close> and \<open>files\<close>, the
  body filters \<open>dirs\<close> in place (line 10) and runs over \<open>files\<close>, and then \<^verbatim>\<open>os.walk\<close>
  goes through what is left in \<open>dirs\<close>, in order (\<open>walk_dirs\<close>): it walks a directory
  under the joined path, skips a symbolic link, and gets nothing from a directory
  that it cannot list.
\<close>

function (sequential) walk :: "path \<Rightarrow> entry list \<Rightarrow> state \<Rightarrow> (exn \<times> state) + state"
  and walk_dirs :: "path \<Rightarrow> entry list \<Rightarrow> state \<Rightarrow> (exn \<times> state) + state" where
  "walk root entries st =
     (let dirs = filter is_dir entries;
          files = filter (\<lambda>e. \<not> is_dir e) entries;
          dirs' = filter (\<lambda>d. entry_name d \<notin> exclude_folders) dirs
      in (case scan_files root files (emit (Scandir root) st) of
            Inl x \<Rightarrow> Inl x
          | Inr st' \<Rightarrow> walk_dirs root dirs' st'))"
| "walk_dirs root [] st = Inr st"
| "walk_dirs root (Dir d sub # dirs) st =
     (case walk (join root d) sub st of
        Inl x \<Rightarrow> Inl x
      | Inr st' \<Rightarrow> walk_dirs root dirs st')"
| "walk_dirs root (Dir_unlistable d _ # dirs) st =
     walk_dirs root dirs (emit (Scandir (join root d)) st)"
| "walk_dirs root (_ # dirs) st = walk_dirs root dirs st"
  by pat_completeness auto
termination
proof (relation "measure (\<lambda>x. case x of
          Inl (root, entries, st) \<Rightarrow> 2 * size_list size entries + 1
        | Inr (root, dirs, st) \<Rightarrow> 2 * size_list size dirs)", goal_cases)
  case 1
  show ?case by simp
next
  case (2 root entries st dirs files dirs' st')
  have le: "size_list size (filter P xs) \<le> size_list size xs" for P and xs :: "entry list"
    by (induction xs) auto
  have "size_list size (filter (\<lambda>d. entry_name d \<notin> exclude_folders) (filter is_dir entries))
          \<le> size_list size entries"
    by (rule order_trans [OF le le])
  with 2 show ?case by simp
qed simp_all

text \<open>
  The whole script: the walk from \<^verbatim>\<open>'./'\<close>, then the summary line. \<open>tree\<close> is the
  listing of the current working directory, which is taken to be listable.
\<close>

definition program :: "entry list \<Rightarrow> (exn \<times> state) + state" where
  "program tree =
     (case walk directory_path tree init_state of
        Inl x \<Rightarrow> Inl x
      | Inr st \<Rightarrow> Inr (py_print (''Total lines: '' @ str_int (total_lines st)) ''\<newline>'' st))"



text \<open>The state a run ends in, whether it completes or an exception ends it.\<close>

fun state_of :: "(exn \<times> state) + state \<Rightarrow> state" where
  "state_of (Inl (e, st)) = st"
| "state_of (Inr st) = st"

subsection \<open>The vocabulary of the specification\<close>

text \<open>
  The specification speaks of \<^emph>\<open>every file\<close> of the tree. \<open>tree_files\<close> lists them, each
  with the names of the directories above it, outermost first, wherever it lies and
  whether or not the script gets there.
\<close>

fun below :: "string \<Rightarrow> string list \<times> string \<times> file_data \<Rightarrow> string list \<times> string \<times> file_data" where
  "below n (tr, f, d) = (n # tr, f, d)"



text \<open>
  The sum that the specification equates \<^verbatim>\<open>Total lines\<close> with: over every file whose
  name ends with one of the four extensions, that lies under no directory named
  \<^verbatim>\<open>node_modules\<close>, and whose bytes decode, the number of lines.
\<close>

definition recognized :: "string \<Rightarrow> bool" where
  "recognized name = (\<exists>ext \<in> {''.js'', ''.html'', ''.css'', ''.py''}. suffix ext name)"

definition under_node_modules :: "string list \<Rightarrow> bool" where
  "under_node_modules tr = (''node_modules'' \<in> set tr)"

fun decodes :: "file_data \<Rightarrow> bool" where
  "decodes (Decodable text) = True"
| "decodes _ = False"

fun line_count :: "file_data \<Rightarrow> nat" where
  "line_count (Decodable text) = length (readlines text)"
| "line_count _ = 0"

fun counted :: "string list \<times> string \<times> file_data \<Rightarrow> bool" where
  "counted (tr, f, d) = (recognized f \<and> \<not> under_node_modules tr \<and> decodes d)"


text \<open>
  The files in sight of \<^verbatim>\<open>os.walk\<close>: those that lie neither under a symbolic link nor
  under a directory that cannot be listed. \<open>listed_total\<close> is the sum of the
  specification taken over these files only. A tree is \<open>plain\<close> when it has no such
  link and no such directory; then the two sums are over the same files.
\<close>

fun listed :: "entry \<Rightarrow> (string list \<times> string \<times> file_data) list" where
  "listed (File f d) = [([], f, d)]"
| "listed (Dir n sub) = map (below n) (concat (map listed sub))"
| "listed (Dir_link n sub) = []"
| "listed (Dir_unlistable n sub) = []"

definition listed_files :: "entry list \<Rightarrow> (string list \<times> string \<times> file_data) list" where
  "listed_files tree = concat (map listed tree)"

definition listed_total :: "entry list \<Rightarrow> nat" where
  "listed_total tree = (\<Sum>(tr, f, d) \<leftarrow> filter counted (listed_files tree). line_count d)"

fun plain_entry :: "entry \<Rightarrow> bool" where
  "plain_entry (File f d) = True"
| "plain_entry (Dir n sub) = list_all plain_entry sub"
| "plain_entry (Dir_link n sub) = False"
| "plain_entry (Dir_unlistable n sub) = False"

definition plain :: "entry list \<Rightarrow> bool" where
  "plain tree = list_all plain_entry tree"

text \<open>
  A tree is \<open>fatal\<close> when one of the files that the script gets to and selects cannot
  be opened or read.
\<close>

fun unopenable :: "file_data \<Rightarrow> bool" where
  "unopenable (Unopenable msg) = True"
| "unopenable _ = False"

fun fatal_file :: "string list \<times> string \<times> file_data \<Rightarrow> bool" where
  "fatal_file (tr, f, d) = (recognized f \<and> \<not> under_node_modules tr \<and> unopenable d)"

definition fatal :: "entry list \<Rightarrow> bool" where
  "fatal tree = list_ex fatal_file (listed_files tree)"

text \<open>
  \<open>raised_by root x (e, st)\<close>: the exception \<open>e\<close> is the error of opening the file \<open>x\<close>,
  and the call of \<^verbatim>\<open>open\<close> on its path is the last thing that happened in \<open>st\<close>.
\<close>

fun raised_by :: "path \<Rightarrow> string list \<times> string \<times> file_data \<Rightarrow> exn \<times> state \<Rightarrow> bool" where
  "raised_by root (tr, f, d) (e, st) =
     (recognized f \<and> \<not> under_node_modules tr \<and>
      (case d of Unopenable msg \<Rightarrow> e = OSError msg | _ \<Rightarrow> False) \<and>
      events st \<noteq> [] \<and> last (events st) = Open (foldl join root (tr @ [f])))"

text \<open>
  The tree without its excluded directories: every entry that \<^verbatim>\<open>os.walk\<close> lists as a
  directory and whose name is in \<open>exclude_folders\<close> is removed, at every depth.
  \<open>tree_dir_names\<close> lists the names of all directories of a tree.
\<close>

fun excluded :: "entry \<Rightarrow> bool" where
  "excluded e = (is_dir e \<and> entry_name e \<in> exclude_folders)"

fun prune_entry :: "entry \<Rightarrow> entry" where
  "prune_entry (File f d) = File f d"
| "prune_entry (Dir n sub) = Dir n (map prune_entry (filter (\<lambda>e. \<not> excluded e) sub))"
| "prune_entry (Dir_link n sub) =
     Dir_link n (map prune_entry (filter (\<lambda>e. \<not> excluded e) sub))"
| "prune_entry (Dir_unlistable n sub) =
     Dir_unlistable n (map prune_entry (filter (\<lambda>e. \<not> excluded e) sub))"

definition prune :: "entry list \<Rightarrow> entry list" where
  "prune tree = map prune_entry (filter (\<lambda>e. \<not> excluded e) tree)"

fun dir_names :: "entry \<Rightarrow> string list" where
  "dir_names (File f d) = []"
| "dir_names (Dir n sub) = n # concat (map dir_names sub)"
| "dir_names (Dir_link n sub) = n # concat (map dir_names sub)"
| "dir_names (Dir_unlistable n sub) = n # concat (map dir_names sub)"

definition tree_dir_names :: "entry list \<Rightarrow> string list" where
  "tree_dir_names tree = concat (map dir_names tree)"

text \<open>The values that \<^verbatim>\<open>total_lines\<close> is assigned, in order.\<close>

fun assigned_value :: "event \<Rightarrow> int list" where
  "assigned_value (Assign v) = [v]"
| "assigned_value _ = []"

definition assigned :: "event list \<Rightarrow> int list" where
  "assigned evs = concat (map assigned_value evs)"


text \<open>
  The summary is the one line that starts with \<^verbatim>\<open>Total lines: \<close> and is printed with
  the default \<^verbatim>\<open>end\<close>: the lines of a file are printed with an empty \<^verbatim>\<open>end\<close>.
\<close>

fun is_summary :: "event \<Rightarrow> bool" where
  "is_summary (Print s e) = (startswith s ''Total lines: '' \<and> e = ''\<newline>'')"
| "is_summary _ = False"

definition no_summary :: "state \<Rightarrow> bool" where
  "no_summary st \<longleftrightarrow> \<not> list_ex is_summary (events st)"

definition separator :: string where
  "separator = ''\<newline>'' @ replicate 50 (CHR ''-'') @ ''\<newline>''"


fun dirs_fatal :: "entry list \<Rightarrow> bool" where
  "dirs_fatal [] = False"
| "dirs_fatal (Dir n sub # ds) = (fatal sub \<or> dirs_fatal ds)"
| "dirs_fatal (_ # ds) = dirs_fatal ds"

definition entry_total :: "entry \<Rightarrow> nat" where
  "entry_total e = listed_total [e]"

definition entry_fatal :: "entry \<Rightarrow> bool" where
  "entry_fatal e = fatal [e]"

subsection \<open>Example trees\<close>


text \<open>A file that cannot be read, deep inside an excluded directory.\<close>

definition sentinel_tree :: "entry list" where
  "sentinel_tree =
     [Dir ''node_modules''
        [Dir ''sub'' [Dir ''deep'' [File ''app.js'' (Unopenable ''Permission denied'')]]],
      Dir ''lib'' [Dir ''node_modules'' [File ''dep.js'' (Decodable ''d\<newline>'')]],
      File ''main.py'' (Decodable ''m\<newline>'')]"

text \<open>A source file that cannot be read, where the script gets to it.\<close>

definition locked_tree :: "entry list" where
  "locked_tree =
     [File ''first.css'' (Decodable ''a {}\<newline>''),
      Dir ''pkg''
        [File ''secret.py'' (Unopenable ''Permission denied''),
         File ''later.py'' (Decodable ''z\<newline>'')],
      File ''notes.txt'' (Unopenable ''Permission denied'')]"



section \<open>Properties\<close>

subsection \<open>Suffixes and lines\<close>

lemma endswith_iff_append: "endswith s suf \<longleftrightarrow> (\<exists>stem. s = stem @ suf)"
proof
  assume "endswith s suf"
  then have "s = take (length s - length suf) s @ suf"
    by (metis append_take_drop_id endswith_def)
  then show "\<exists>stem. s = stem @ suf" ..
next
  assume "\<exists>stem. s = stem @ suf"
  then show "endswith s suf" by (auto simp: endswith_def)
qed

lemma endswith_any_extensions:
  "endswith_any file file_extensions \<longleftrightarrow>
     (\<exists>stem. file = stem @ ''.js'' \<or> file = stem @ ''.html'' \<or>
             file = stem @ ''.css'' \<or> file = stem @ ''.py'')"
  unfolding endswith_any_def file_extensions_def
  by (simp add: endswith_iff_append) blast

subsection \<open>One file\<close>

lemma print_lines_events:
  "print_lines ls st = st\<lparr>events := events st @ map (\<lambda>l. Print l []) ls\<rparr>"
  by (induction ls arbitrary: st) (simp_all add: py_print_def emit_def)

lemma process_file_skip:
  "\<not> endswith_any file file_extensions \<Longrightarrow> process_file root file d st = Inr st"
  by (simp add: process_file_def)

lemma process_file_decodable:
  "endswith_any file file_extensions \<Longrightarrow>
   process_file root file (Decodable text) st =
     Inr (st\<lparr>total_lines := total_lines st + int (length (readlines text)),
             events := events st @
               [Open (join root file),
                Assign (total_lines st + int (length (readlines text))),
                Print (''Contents of '' @ join root file @ '':'') ''\<newline>''] @
               map (\<lambda>l. Print l []) (readlines text) @
               [Print separator ''\<newline>'']\<rparr>)"
  by (simp add: process_file_def open_readlines_def Let_def print_lines_events
      py_print_def emit_def separator_def)

lemma process_file_undecodable:
  "endswith_any file file_extensions \<Longrightarrow>
   process_file root file (Undecodable msg) st =
     Inr (st\<lparr>events := events st @
               [Open (join root file),
                Print (''Error reading '' @ join root file @ '': '' @ msg) ''\<newline>'']\<rparr>)"
  by (simp add: process_file_def open_readlines_def Let_def py_print_def emit_def)

lemma process_file_unopenable:
  "endswith_any file file_extensions \<Longrightarrow>
   process_file root file (Unopenable msg) st =
     Inl (OSError msg, st\<lparr>events := events st @ [Open (join root file)]\<rparr>)"
  by (simp add: process_file_def open_readlines_def Let_def py_print_def emit_def)



lemma stdout_append:
  "stdout (st\<lparr>events := events st @ evs\<rparr>) = stdout st @ concat (map written evs)"
  by (simp add: stdout_def)


subsection \<open>The sum and the fatal files, entry by entry\<close>

declare walk.simps [simp del]

lemma recognized_iff: "recognized f \<longleftrightarrow> endswith_any f file_extensions"
  by (auto simp: recognized_def endswith_any_extensions suffix_def)

lemma listed_files_simps [simp]:
  "listed_files [] = []"
  "listed_files (e # es) = listed e @ listed_files es"
  by (simp_all add: listed_files_def)

lemma listed_Dir [simp]:
  "listed (Dir n sub) = map (below n) (listed_files sub)"
  by (simp add: listed_files_def)

declare listed.simps(2) [simp del]

lemma listed_total_Nil [simp]: "listed_total [] = 0"
  by (simp add: listed_total_def)

lemma listed_total_Cons [simp]: "listed_total (e # es) = entry_total e + listed_total es"
  by (simp add: listed_total_def entry_total_def)

lemma counted_below [simp]: "counted (below n x) \<longleftrightarrow> n \<noteq> ''node_modules'' \<and> counted x"
  by (cases x) (auto simp: under_node_modules_def)

lemma fatal_file_below [simp]:
  "fatal_file (below n x) \<longleftrightarrow> n \<noteq> ''node_modules'' \<and> fatal_file x"
  by (cases x) (auto simp: under_node_modules_def)

lemma data_below [simp]: "snd (snd (below n x)) = snd (snd x)"
  by (cases x) simp

lemma filter_counted_below:
  "filter counted (map (below n) xs) =
     (if n = ''node_modules'' then [] else map (below n) (filter counted xs))"
  by (induction xs) auto

lemma entry_total_simps [simp]:
  "entry_total (File f d) = (if recognized f \<and> decodes d then line_count d else 0)"
  "entry_total (Dir n sub) = (if n = ''node_modules'' then 0 else listed_total sub)"
  "entry_total (Dir_link n sub) = 0"
  "entry_total (Dir_unlistable n sub) = 0"
  by (simp_all add: entry_total_def listed_total_def under_node_modules_def
      filter_counted_below comp_def case_prod_unfold)

lemma fatal_Nil [simp]: "\<not> fatal []"
  by (simp add: fatal_def)

lemma fatal_Cons [simp]: "fatal (e # es) \<longleftrightarrow> entry_fatal e \<or> fatal es"
  by (simp add: fatal_def entry_fatal_def)

lemma entry_fatal_simps [simp]:
  "entry_fatal (File f d) \<longleftrightarrow> recognized f \<and> unopenable d"
  "entry_fatal (Dir n sub) \<longleftrightarrow> n \<noteq> ''node_modules'' \<and> fatal sub"
  "\<not> entry_fatal (Dir_link n sub)"
  "\<not> entry_fatal (Dir_unlistable n sub)"
  by (auto simp: entry_fatal_def fatal_def list_ex_iff under_node_modules_def)


lemma fatal_split:
  "fatal es \<longleftrightarrow>
     fatal (filter (\<lambda>e. \<not> is_dir e) es) \<or>
     dirs_fatal (filter (\<lambda>d. entry_name d \<notin> exclude_folders) (filter is_dir es))"
proof (induction es)
  case Nil
  show ?case by simp
next
  case (Cons e es)
  show ?case
    by (cases e)
      (auto simp: Cons.IH exclude_folders_def)
qed

subsection \<open>The walk adds up the specified sum\<close>


lemma process_file_completes:
  "(\<exists>st'. process_file root f d st = Inr st') \<longleftrightarrow> \<not> entry_fatal (File f d)"
  by (cases d; cases "endswith_any f file_extensions")
    (auto simp: process_file_skip process_file_decodable process_file_undecodable
      process_file_unopenable recognized_iff)


lemma scan_files_completes:
  "(\<exists>st'. scan_files root fs st = Inr st') \<longleftrightarrow> \<not> fatal (filter (\<lambda>e. \<not> is_dir e) fs)"
proof (induction root fs st rule: scan_files.induct)
  case (2 root f d files st)
  show ?case
  proof (cases "process_file root f d st")
    case (Inl x)
    with process_file_completes [of root f d st] show ?thesis by simp
  next
    case (Inr st1)
    with process_file_completes [of root f d st] 2 [OF Inr] show ?thesis by simp
  qed
qed simp_all

lemma emit_total [simp]: "total_lines (emit ev st) = total_lines st"
  by (simp add: emit_def)

lemma emit_events [simp]: "events (emit ev st) = events st @ [ev]"
  by (simp add: emit_def)


lemma walk_completes:
  "(\<exists>st'. walk root es st = Inr st') \<longleftrightarrow> \<not> fatal es"
  "(\<exists>st'. walk_dirs root ds st = Inr st') \<longleftrightarrow> \<not> dirs_fatal ds"
proof (induction root es st and root ds st rule: walk_walk_dirs.induct)
  case (1 root entries st)
  let ?files = "filter (\<lambda>e. \<not> is_dir e) entries"
  let ?dirs = "filter (\<lambda>d. entry_name d \<notin> exclude_folders) (filter is_dir entries)"
  show ?case
  proof (cases "scan_files root ?files (emit (Scandir root) st)")
    case (Inl x)
    then have "fatal ?files"
      using scan_files_completes [of root ?files "emit (Scandir root) st"] by simp
    with Inl show ?thesis
      by (simp add: walk.simps fatal_split [of entries])
  next
    case (Inr st1)
    then have "\<not> fatal ?files"
      using scan_files_completes [of root ?files "emit (Scandir root) st"] by simp
    with Inr "1.IH" [OF refl refl refl Inr] show ?thesis
      by (simp add: walk.simps fatal_split [of entries])
  qed
next
  case (3 root d sub dirs st)
  show ?case
  proof (cases "walk (join root d) sub st")
    case (Inl x)
    with "3.IH"(1) show ?thesis by simp
  next
    case (Inr st1)
    with "3.IH"(1) "3.IH"(2) [OF Inr] show ?thesis by simp
  qed
qed simp_all

subsection \<open>Where an exception comes from\<close>

lemma raised_by_below:
  "raised_by (join root n) x r \<Longrightarrow> n \<noteq> ''node_modules'' \<Longrightarrow> raised_by root (below n x) r"
  by (cases x; cases r) (simp add: under_node_modules_def)

lemma process_file_abort:
  "process_file root f d st = Inl r \<Longrightarrow> raised_by root ([], f, d) r"
  by (cases d; cases "endswith_any f file_extensions"; cases r)
    (auto simp: process_file_skip process_file_decodable process_file_undecodable
      process_file_unopenable recognized_iff under_node_modules_def)

lemma scan_files_abort:
  "scan_files root fs st = Inl r \<Longrightarrow> \<exists>f d. File f d \<in> set fs \<and> raised_by root ([], f, d) r"
proof (induction root fs st rule: scan_files.induct)
  case (2 root f d files st)
  then show ?case
    by (fastforce split: sum.splits dest: process_file_abort)
qed auto

lemma listed_in_tree: "e \<in> set es \<Longrightarrow> set (listed e) \<subseteq> set (listed_files es)"
  by (induction es) auto

lemma walk_abort:
  "walk root es st = Inl r \<Longrightarrow> \<exists>x \<in> set (listed_files es). raised_by root x r"
  "walk_dirs root ds st = Inl r \<Longrightarrow>
     \<exists>n sub. Dir n sub \<in> set ds \<and> (\<exists>x \<in> set (listed_files sub). raised_by (join root n) x r)"
proof (induction root es st and root ds st rule: walk_walk_dirs.induct)
  case (1 root entries st)
  let ?files = "filter (\<lambda>e. \<not> is_dir e) entries"
  let ?dirs = "filter (\<lambda>d. entry_name d \<notin> exclude_folders) (filter is_dir entries)"
  show ?case
  proof (cases "scan_files root ?files (emit (Scandir root) st)")
    case (Inl r')
    with "1.prems" have "r' = r" by (simp add: walk.simps)
    with Inl obtain f d where "File f d \<in> set entries" "raised_by root ([], f, d) r"
      using scan_files_abort by fastforce
    then show ?thesis
      using listed_in_tree [of "File f d" entries] by auto
  next
    case (Inr st1)
    with "1.prems" have "walk_dirs root ?dirs st1 = Inl r" by (simp add: walk.simps)
    from "1.IH" [OF refl refl refl Inr this] obtain n sub x where
      mem: "Dir n sub \<in> set ?dirs" and x: "x \<in> set (listed_files sub)"
      and r: "raised_by (join root n) x r"
      by blast
    from mem have n: "n \<noteq> ''node_modules''" and "Dir n sub \<in> set entries"
      by (auto simp: exclude_folders_def)
    then have "below n x \<in> set (listed_files entries)"
      using x listed_in_tree [of "Dir n sub" entries] by auto
    with raised_by_below [OF r n] show ?thesis by blast
  qed
next
  case (3 root d sub dirs st)
  show ?case
  proof (cases "walk (join root d) sub st")
    case (Inl r')
    with "3.prems" have "r' = r" by simp
    with Inl "3.IH"(1) show ?thesis by auto
  next
    case (Inr st1)
    with "3.prems" have "walk_dirs root dirs st1 = Inl r" by simp
    from "3.IH"(2) [OF Inr this] show ?thesis by auto
  qed
qed auto

subsection \<open>Invariants of the walk\<close>

lemma scan_files_invariant:
  assumes step: "\<And>root f d st. I st \<Longrightarrow> I (state_of (process_file root f d st))"
  shows "I st \<Longrightarrow> I (state_of (scan_files root fs st))"
proof (induction root fs st rule: scan_files.induct)
  case (2 root f d files st)
  from step [OF "2.prems", of root f d] "2.IH" show ?case
    by (cases "process_file root f d st") auto
qed simp_all

lemma walk_invariant:
  assumes step: "\<And>root f d st. I st \<Longrightarrow> I (state_of (process_file root f d st))"
    and list: "\<And>p st. I st \<Longrightarrow> I (emit (Scandir p) st)"
  shows "I st \<Longrightarrow> I (state_of (walk root es st))"
    and "I st \<Longrightarrow> I (state_of (walk_dirs root ds st))"
proof (induction root es st and root ds st rule: walk_walk_dirs.induct)
  case (1 root entries st)
  let ?files = "filter (\<lambda>e. \<not> is_dir e) entries"
  have *: "I (state_of (scan_files root ?files (emit (Scandir root) st)))"
    by (rule scan_files_invariant [of I, OF step list [OF "1.prems"]])
  show ?case
  proof (cases "scan_files root ?files (emit (Scandir root) st)")
    case (Inl r)
    with * show ?thesis by (simp add: walk.simps)
  next
    case (Inr st1)
    with * "1.IH" [OF refl refl refl Inr] show ?thesis by (simp add: walk.simps)
  qed
next
  case (3 root d sub dirs st)
  from "3.IH"(1) [OF "3.prems"] "3.IH"(2) show ?case
    by (cases "walk (join root d) sub st") auto
next
  case (4 root d dirs st)
  from "4.IH" [OF list [OF "4.prems"]] show ?case by simp
qed simp_all

subsection \<open>The walk and the pruned tree\<close>

lemma prune_entry_Dir [simp]:
  "prune_entry (Dir n sub) = Dir n (prune sub)"
  "prune_entry (Dir_link n sub) = Dir_link n (prune sub)"
  "prune_entry (Dir_unlistable n sub) = Dir_unlistable n (prune sub)"
  by (simp_all add: prune_def)

declare prune_entry.simps(2-4) [simp del]

lemma is_dir_prune_entry [simp]: "is_dir (prune_entry e) = is_dir e"
  by (cases e) simp_all

lemma entry_name_prune_entry [simp]: "entry_name (prune_entry e) = entry_name e"
  by (cases e) simp_all

lemma prune_files: "filter (\<lambda>e. \<not> is_dir e) (prune es) = filter (\<lambda>e. \<not> is_dir e) es"
proof (induction es)
  case Nil
  show ?case by (simp add: prune_def)
next
  case (Cons e es)
  then show ?case by (cases e) (simp_all add: prune_def)
qed

lemma prune_dirs:
  "filter (\<lambda>d. entry_name d \<notin> exclude_folders) (filter is_dir (prune es)) =
   map prune_entry (filter (\<lambda>d. entry_name d \<notin> exclude_folders) (filter is_dir es))"
  by (induction es) (simp_all add: prune_def)

lemma walk_prune:
  "walk root (prune es) st = walk root es st"
  "walk_dirs root (map prune_entry ds) st = walk_dirs root ds st"
proof (induction root es st and root ds st rule: walk_walk_dirs.induct)
  case (1 root entries st)
  let ?files = "filter (\<lambda>e. \<not> is_dir e) entries"
  let ?dirs = "filter (\<lambda>d. entry_name d \<notin> exclude_folders) (filter is_dir entries)"
  have pruned: "walk root (prune entries) st =
      (case scan_files root ?files (emit (Scandir root) st) of
         Inl x \<Rightarrow> Inl x
       | Inr st' \<Rightarrow> walk_dirs root (map prune_entry ?dirs) st')"
    by (simp only: walk.simps Let_def prune_files prune_dirs)
  have plain: "walk root entries st =
      (case scan_files root ?files (emit (Scandir root) st) of
         Inl x \<Rightarrow> Inl x
       | Inr st' \<Rightarrow> walk_dirs root ?dirs st')"
    by (simp only: walk.simps Let_def)
  show ?case
  proof (cases "scan_files root ?files (emit (Scandir root) st)")
    case (Inl r)
    then show ?thesis by (simp only: pruned plain sum.case)
  next
    case (Inr st1)
    from "1.IH" [OF refl refl refl Inr] show ?thesis
      by (simp only: pruned plain Inr sum.case)
  qed
next
  case (3 root d sub dirs st)
  show ?case
  proof (cases "walk (join root d) sub st")
    case (Inl r)
    with "3.IH"(1) show ?thesis by simp
  next
    case (Inr st1)
    with "3.IH"(1) "3.IH"(2) [OF Inr] show ?thesis by simp
  qed
qed simp_all

lemma prune_entry_names:
  "excluded e \<or> ''node_modules'' \<notin> set (dir_names (prune_entry e))"
  by (induction e) (auto simp: prune_def exclude_folders_def)

lemma prune_names: "''node_modules'' \<notin> set (tree_dir_names (prune es))"
  using prune_entry_names by (auto simp: prune_def tree_dir_names_def)

subsection \<open>The accumulator and the summary\<close>


lemma assigned_append [simp]: "assigned (xs @ ys) = assigned xs @ assigned ys"
  by (simp add: assigned_def)

lemma assigned_simps [simp]:
  "assigned [] = []"
  "assigned (Assign v # evs) = v # assigned evs"
  "assigned (Scandir p # evs) = assigned evs"
  "assigned (Open p # evs) = assigned evs"
  "assigned (Print s e # evs) = assigned evs"
  by (simp_all add: assigned_def)

lemma assigned_lines [simp]: "assigned (map (\<lambda>l. Print l []) ls) = []"
  by (induction ls) simp_all



lemma no_summary_step:
  assumes "no_summary st"
  shows "no_summary (state_of (process_file root f d st))"
proof (cases "endswith_any f file_extensions")
  case False
  with assms show ?thesis by (simp add: process_file_skip)
next
  case True
  with assms show ?thesis
    by (cases d)
      (auto simp: process_file_decodable process_file_undecodable process_file_unopenable
        no_summary_def list_ex_iff startswith_def separator_def)
qed

lemma no_summary_walk: "no_summary (state_of (walk root es init_state))"
proof (rule walk_invariant(1) [of no_summary])
  show "no_summary init_state"
    by (simp add: no_summary_def init_state_def)
qed (simp_all add: no_summary_step, simp add: no_summary_def)

subsection \<open>Trees without links and unlistable directories\<close>



subsection \<open>The number of lines of a text\<close>

lemma length_split_keepends:
  "length (split_keepends acc cs) =
     count_list cs (CHR ''\<newline>'') +
     (if acc @ cs \<noteq> [] \<and> (cs = [] \<or> last cs \<noteq> CHR ''\<newline>'') then 1 else 0)"
  by (induction cs arbitrary: acc) auto

lemma length_readlines:
  "length (readlines text) =
     count_list (universal_newlines text) (CHR ''\<newline>'') +
     (if universal_newlines text \<noteq> [] \<and> last (universal_newlines text) \<noteq> CHR ''\<newline>''
      then 1 else 0)"
  by (simp add: readlines_def length_split_keepends)

lemma universal_newlines_no_return: "CHR 0x0D \<notin> set (universal_newlines cs)"
  by (induction cs rule: universal_newlines.induct) (auto split: list.splits)

subsection \<open>Running the script on the example trees\<close>

lemmas run_simps =
  program_def walk.simps Let_def process_file_def open_readlines_def readlines_def
  endswith_any_def endswith_def startswith_def join_def file_extensions_def
  exclude_folders_def directory_path_def py_print_def emit_def init_state_def
  str_int_def str_nat.simps

lemma hyphens:
  "replicate 50 (CHR ''-'') = ''--------------------------------------------------''"
  by (simp add: eval_nat_numeral)



section \<open>The claims of the specification\<close>




text \<open>
  C2. A directory named \<^verbatim>\<open>node_modules\<close>, at any depth, is taken out of the list of
  subdirectories before the walk descends, so nothing below it is listed, opened,
  printed or counted: the run on a tree is, event for event, the run on the tree from
  which every such directory has been removed, and in that tree no directory is named
  \<^verbatim>\<open>node_modules\<close>.
\<close>

theorem excluded_directories_never_entered:
  "program tree = program (prune tree) \<and>
   ''node_modules'' \<notin> set (tree_dir_names (prune tree))"
  by (simp add: program_def walk_prune(1) prune_names)

theorem excluded_directories_never_entered_witness:
  "prune sentinel_tree = [Dir ''lib'' [], File ''main.py'' (Decodable ''m\<newline>'')] \<and>
   program sentinel_tree = Inr \<lparr>total_lines = 1, events =
     [Scandir ''./'',
      Open ''./main.py'', Assign 1, Print ''Contents of ./main.py:'' ''\<newline>'',
      Print ''m\<newline>'' [],
      Print ''\<newline>--------------------------------------------------\<newline>'' ''\<newline>'',
      Scandir ''./lib'',
      Print ''Total lines: 1'' ''\<newline>'']\<rparr>"
proof -
  have p: "prune sentinel_tree = [Dir ''lib'' [], File ''main.py'' (Decodable ''m\<newline>'')]"
    by (simp add: sentinel_tree_def prune_def exclude_folders_def)
  have "program (prune sentinel_tree) = Inr \<lparr>total_lines = 1, events =
     [Scandir ''./'',
      Open ''./main.py'', Assign 1, Print ''Contents of ./main.py:'' ''\<newline>'',
      Print ''m\<newline>'' [],
      Print ''\<newline>--------------------------------------------------\<newline>'' ''\<newline>'',
      Scandir ''./lib'',
      Print ''Total lines: 1'' ''\<newline>'']\<rparr>"
    unfolding p by (simp add: run_simps hyphens)
  with excluded_directories_never_entered [of sentinel_tree] p show ?thesis
    by simp
qed

text \<open>
  C3. A file met during the walk is selected, that is, the script goes on to open it,
  if and only if its name ends with exactly \<^verbatim>\<open>.js\<close>, \<^verbatim>\<open>.html\<close>, \<^verbatim>\<open>.css\<close> or
  \<^verbatim>\<open>.py\<close>, letter case included. So \<^verbatim>\<open>script.pyx\<close> and \<^verbatim>\<open>README\<close> are not
  selected, and \<^verbatim>\<open>.py\<close> is.
\<close>

theorem file_selected_iff_suffix:
  "(\<exists>evs. events (state_of (process_file root file d st)) =
            events st @ Open (join root file) # evs) \<longleftrightarrow>
   (\<exists>stem. file = stem @ ''.js'' \<or> file = stem @ ''.html'' \<or>
           file = stem @ ''.css'' \<or> file = stem @ ''.py'')"
proof (cases "endswith_any file file_extensions")
  case True
  have "\<exists>evs. events (state_of (process_file root file d st)) =
            events st @ Open (join root file) # evs"
    by (cases d)
      (simp_all add: True process_file_decodable process_file_undecodable
        process_file_unopenable)
  with True show ?thesis by (simp add: endswith_any_extensions)
next
  case False
  then show ?thesis
    by (simp add: process_file_skip flip: endswith_any_extensions)
qed

theorem file_selected_iff_suffix_witness:
  "(\<exists>evs. events (state_of (process_file ''./'' ''.py'' (Decodable []) init_state)) =
      events init_state @ Open (join ''./'' ''.py'') # evs) \<and>
   \<not> (\<exists>evs. events (state_of (process_file ''./'' ''script.pyx'' (Decodable []) init_state)) =
      events init_state @ Open (join ''./'' ''script.pyx'') # evs) \<and>
   \<not> (\<exists>evs. events (state_of (process_file ''./'' ''README'' (Decodable []) init_state)) =
      events init_state @ Open (join ''./'' ''README'') # evs) \<and>
   \<not> (\<exists>evs. events (state_of (process_file ''./'' ''MAIN.PY'' (Decodable []) init_state)) =
      events init_state @ Open (join ''./'' ''MAIN.PY'') # evs)"
proof -
  have yes: "endswith_any ''.py'' file_extensions"
    and no: "\<not> endswith_any ''script.pyx'' file_extensions"
      "\<not> endswith_any ''README'' file_extensions"
      "\<not> endswith_any ''MAIN.PY'' file_extensions"
    by (simp_all add: endswith_any_def endswith_def file_extensions_def)
  note sel = file_selected_iff_suffix [of "''./''" _ "Decodable []" init_state]
  from yes no show ?thesis
    unfolding endswith_any_extensions sel [symmetric] by blast
qed



text \<open>
  C5. An error of opening or reading a file other than a failure to decode is not
  caught. A run that has to open such a file ends there, with that file's error: the
  call of \<^verbatim>\<open>open\<close> is the last thing it does, and the line \<^verbatim>\<open>Total lines: N\<close> is never
  printed.
\<close>

theorem other_errors_abort_the_run:
  "(fatal tree \<longrightarrow> (\<exists>r. program tree = Inl r)) \<and>
   (program tree = Inl r \<longrightarrow>
      list_ex (\<lambda>x. raised_by directory_path x r) (listed_files tree) \<and>
      \<not> list_ex is_summary (events (snd r)))"
proof (intro conjI impI)
  assume "fatal tree"
  with walk_completes(1) [of directory_path tree init_state]
  obtain r where "walk directory_path tree init_state = Inl r"
    by (cases "walk directory_path tree init_state") auto
  then show "\<exists>r. program tree = Inl r" by (simp add: program_def)
next
  assume "program tree = Inl r"
  then have w: "walk directory_path tree init_state = Inl r"
    by (auto simp: program_def split: sum.splits)
  from walk_abort(1) [OF w]
  show "list_ex (\<lambda>x. raised_by directory_path x r) (listed_files tree)"
    by (simp add: list_ex_iff)
  from no_summary_walk [of directory_path tree] w
  show "\<not> list_ex is_summary (events (snd r))"
    by (cases r) (simp add: no_summary_def)
qed

theorem other_errors_abort_the_run_witness:
  "fatal locked_tree \<and>
   program locked_tree = Inl (OSError ''Permission denied'', \<lparr>total_lines = 1, events =
     [Scandir ''./'',
      Open ''./first.css'', Assign 1, Print ''Contents of ./first.css:'' ''\<newline>'',
      Print ''a {}\<newline>'' [],
      Print ''\<newline>--------------------------------------------------\<newline>'' ''\<newline>'',
      Scandir ''./pkg'',
      Open ''./pkg/secret.py'']\<rparr>) \<and>
   list_ex (\<lambda>x. raised_by directory_path x
       (OSError ''Permission denied'', \<lparr>total_lines = 1, events =
     [Scandir ''./'',
      Open ''./first.css'', Assign 1, Print ''Contents of ./first.css:'' ''\<newline>'',
      Print ''a {}\<newline>'' [],
      Print ''\<newline>--------------------------------------------------\<newline>'' ''\<newline>'',
      Scandir ''./pkg'',
      Open ''./pkg/secret.py'']\<rparr>)) (listed_files locked_tree)"
proof -
  have f: "fatal locked_tree"
    by (simp add: locked_tree_def recognized_iff endswith_any_def endswith_def
        file_extensions_def)
  have r: "program locked_tree = Inl (OSError ''Permission denied'', \<lparr>total_lines = 1, events =
     [Scandir ''./'',
      Open ''./first.css'', Assign 1, Print ''Contents of ./first.css:'' ''\<newline>'',
      Print ''a {}\<newline>'' [],
      Print ''\<newline>--------------------------------------------------\<newline>'' ''\<newline>'',
      Scandir ''./pkg'',
      Open ''./pkg/secret.py'']\<rparr>)"
    by (simp add: locked_tree_def run_simps hyphens)
  from other_errors_abort_the_run [of locked_tree] f r show ?thesis
    by blast
qed











end
